theory Spec2Isabelle
  imports Main
begin

section \<open>The AppSec lifecycle manager of internal/appsec/appsec.go\<close>

text \<open>
  The Go file keeps one process-wide pointer \<^verbatim>\<open>activeAppSec\<close> to an \<^verbatim>\<open>appsec\<close>
  struct and drives it with \<^verbatim>\<open>Start\<close>, \<^verbatim>\<open>Stop\<close>, \<^verbatim>\<open>setActiveAppSec\<close> and the
  methods \<^verbatim>\<open>start\<close> and \<^verbatim>\<open>stop\<close>. The model is sequential: one control-plane caller,
  the mutex \<^verbatim>\<open>mu\<close> is not represented. Pointers are addresses in one address space with
  a bump allocator; every effect that leaves the struct (limiter, engine handle, registry
  root, remote configuration, logging, field writes) is also appended to a trace, in
  program order, so that ordering properties can be stated.
\<close>

subsection \<open>Data\<close>

type_synonym addr = nat

type_synonym ruleset = nat

datatype error = Err string | Wrap string error

datatype fault = NilDeref

datatype level = Debug | Info | Error

datatype event =
    Log level
  | RCStart addr
  | RCStop addr
  | RemoteActivationEnable addr
  | RCBlockingEnable addr
  | RCBlockingDisable addr
  | NewTicker addr int int
  | SetLimiter addr addr
  | LimiterStart addr
  | LimiterStop addr
  | NewHandle addr ruleset
  | SwapRoot "addr option"
  | HandleClose addr
  | SetWafHandle addr "addr option"
  | SetStarted addr bool
  | SetActive "addr option"

text \<open>The two fields of \<^verbatim>\<open>config.Config\<close> that appsec.go reads:
  \<^verbatim>\<open>TraceRateLimit\<close> and \<^verbatim>\<open>RulesManager.Latest\<close>.\<close>

record config =
  TraceRateLimit :: int
  Latest :: ruleset

text \<open>\<^verbatim>\<open>type appsec struct { cfg; limiter; wafHandle; started }\<close>; the two pointer
  fields are nullable.\<close>

record appsec =
  cfg :: config
  limiter :: "addr option"
  wafHandle :: "addr option"
  started :: bool

text \<open>
  The process state: the heap of \<^verbatim>\<open>appsec\<close> structs, the allocator, the package
  variable \<^verbatim>\<open>activeAppSec\<close>, the registry's single root slot, the set of token tickers
  whose background ticking is running, the set of closed engine handles, the
  remote-configuration state per instance, and the trace.
\<close>

record world =
  insts :: "addr \<Rightarrow> appsec"
  next_addr :: addr
  activeAppSec :: "addr option"
  root :: "addr option"
  ticking :: "addr set"
  closed :: "addr set"
  rcClients :: "addr set"
  rcBlocking :: "addr set"
  remoteActivation :: "addr set"
  trace :: "event list"

text \<open>
  What the collaborators answer during one call: \<^verbatim>\<open>config.IsEnabled()\<close> gives
  (enabled, set, err); \<^verbatim>\<open>waf.Health()\<close> and \<^verbatim>\<open>waf.Load()\<close> give (ok, err);
  \<^verbatim>\<open>config.NewConfig()\<close> gives a configuration or an error; the remaining fields say
  whether the remote-configuration client, the remote activation and the construction
  of an engine handle from a ruleset fail.
\<close>

record env =
  config_IsEnabled :: "bool \<times> bool \<times> error option"
  waf_Health :: "bool \<times> error option"
  waf_Load :: "bool \<times> error option"
  config_NewConfig :: "error + config"
  startRC_result :: "error option"
  enableRemoteActivation_result :: "error option"
  newWAFHandle_result :: "ruleset \<Rightarrow> error option"

subsection \<open>Primitive effects\<close>

definition emit :: "event \<Rightarrow> world \<Rightarrow> world" where
  "emit e w = w\<lparr>trace := trace w @ [e]\<rparr>"

definition log :: "level \<Rightarrow> world \<Rightarrow> world" where
  "log l w = emit (Log l) w"

definition upd_inst :: "addr \<Rightarrow> (appsec \<Rightarrow> appsec) \<Rightarrow> world \<Rightarrow> world" where
  "upd_inst a f w = w\<lparr>insts := (insts w)(a := f (insts w a))\<rparr>"

definition set_limiter :: "addr \<Rightarrow> addr \<Rightarrow> world \<Rightarrow> world" where
  "set_limiter a l w = emit (SetLimiter a l) (upd_inst a (\<lambda>r. r\<lparr>limiter := Some l\<rparr>) w)"

definition set_wafHandle :: "addr \<Rightarrow> addr option \<Rightarrow> world \<Rightarrow> world" where
  "set_wafHandle a h w = emit (SetWafHandle a h) (upd_inst a (\<lambda>r. r\<lparr>wafHandle := h\<rparr>) w)"

definition set_started :: "addr \<Rightarrow> bool \<Rightarrow> world \<Rightarrow> world" where
  "set_started a b w = emit (SetStarted a b) (upd_inst a (\<lambda>r. r\<lparr>started := b\<rparr>) w)"

definition set_active :: "addr option \<Rightarrow> world \<Rightarrow> world" where
  "set_active a w = emit (SetActive a) (w\<lparr>activeAppSec := a\<rparr>)"

text \<open>The token ticker of the limiter library: \<^verbatim>\<open>NewTokenTicker\<close> allocates a ticker
  that is not running, \<^verbatim>\<open>Start\<close> launches its background ticking, \<^verbatim>\<open>Stop\<close> ends it.\<close>

definition NewTokenTicker :: "int \<Rightarrow> int \<Rightarrow> world \<Rightarrow> addr \<times> world" where
  "NewTokenTicker tokens maxTokens w =
     (next_addr w, emit (NewTicker (next_addr w) tokens maxTokens)
                     (w\<lparr>next_addr := Suc (next_addr w)\<rparr>))"

definition limiter_Start :: "addr \<Rightarrow> world \<Rightarrow> world" where
  "limiter_Start l w = emit (LimiterStart l) (w\<lparr>ticking := insert l (ticking w)\<rparr>)"

definition limiter_Stop :: "addr \<Rightarrow> world \<Rightarrow> world" where
  "limiter_Stop l w = emit (LimiterStop l) (w\<lparr>ticking := ticking w - {l}\<rparr>)"

text \<open>Modelled from the spec: \<^verbatim>\<open>dyngo.SwapRootOperation\<close> is not in the source file.
  The spec's protection registry has a single process-wide root; swapping it is a
  pointer replacement, and swapping to nil detaches the root. The root is named by the
  engine handle whose detection hook it carries.\<close>

definition SwapRootOperation :: "addr option \<Rightarrow> world \<Rightarrow> world" where
  "SwapRootOperation r w = emit (SwapRoot r) (w\<lparr>root := r\<rparr>)"

text \<open>Modelled from the spec: \<^verbatim>\<open>wafHandle.Close\<close> is not in the source file. The
  spec's \<open>handle.Close()\<close> closes and releases the engine handle.\<close>

definition Close :: "addr \<Rightarrow> world \<Rightarrow> world" where
  "Close h w = emit (HandleClose h) (w\<lparr>closed := insert h (closed w)\<rparr>)"

text \<open>Modelled from the spec: \<^verbatim>\<open>startRC\<close> is not in the source file. The spec's
  \<open>StartRemoteConfigClient()\<close> starts the instance's remote-configuration client or
  reports that it could not be constructed.\<close>

definition startRC :: "env \<Rightarrow> addr \<Rightarrow> world \<Rightarrow> error option \<times> world" where
  "startRC en a w =
     (case startRC_result en of
        Some e \<Rightarrow> (Some e, w)
      | None \<Rightarrow> (None, emit (RCStart a) (w\<lparr>rcClients := insert a (rcClients w)\<rparr>)))"

text \<open>Modelled from the spec: \<^verbatim>\<open>stopRC\<close> is not in the source file. The spec's
  \<open>StopRemoteConfigClient()\<close> stops the instance's remote-configuration client.\<close>

definition stopRC :: "addr \<Rightarrow> world \<Rightarrow> world" where
  "stopRC a w = emit (RCStop a) (w\<lparr>rcClients := rcClients w - {a}\<rparr>)"

text \<open>Modelled from the spec: \<^verbatim>\<open>enableRemoteActivation\<close> is not in the source file.
  The spec's \<open>EnableRemoteActivation()\<close> subscribes the instance to remote policy
  toggles, or fails.\<close>

definition enableRemoteActivation :: "env \<Rightarrow> addr \<Rightarrow> world \<Rightarrow> error option \<times> world" where
  "enableRemoteActivation en a w =
     (case enableRemoteActivation_result en of
        Some e \<Rightarrow> (Some e, w)
      | None \<Rightarrow> (None, emit (RemoteActivationEnable a)
                          (w\<lparr>remoteActivation := insert a (remoteActivation w)\<rparr>)))"

text \<open>Modelled from the spec: \<^verbatim>\<open>enableRCBlocking\<close> is not in the source file. The
  spec's Start "enables remote-configuration-driven blocking updates".\<close>

definition enableRCBlocking :: "addr \<Rightarrow> world \<Rightarrow> world" where
  "enableRCBlocking a w = emit (RCBlockingEnable a) (w\<lparr>rcBlocking := insert a (rcBlocking w)\<rparr>)"

text \<open>Modelled from the spec: \<^verbatim>\<open>disableRCBlocking\<close> is not in the source file. The
  spec's Stop "disables remote-configuration-driven updates".\<close>

definition disableRCBlocking :: "addr \<Rightarrow> world \<Rightarrow> world" where
  "disableRCBlocking a w = emit (RCBlockingDisable a) (w\<lparr>rcBlocking := rcBlocking w - {a}\<rparr>)"

text \<open>Modelled from the spec: \<^verbatim>\<open>swapWAF\<close> is not in the source file. The spec's
  SwapRuleset "constructs a new EngineHandle from newRuleSet; on construction failure,
  leaves the existing handle untouched and returns the error. On success, registers
  the new handle's detection hook as the root of the protection registry (atomically
  replacing the previous root) and closes the previous handle"; the new handle becomes
  the manager's current handle ("a swap always constructs a new handle and retires the
  old one").\<close>

definition swapWAF :: "env \<Rightarrow> ruleset \<Rightarrow> addr \<Rightarrow> world \<Rightarrow> error option \<times> world" where
  "swapWAF en rules a w =
     (case newWAFHandle_result en rules of
        Some e \<Rightarrow> (Some e, w)
      | None \<Rightarrow>
          (let h = next_addr w;
               w1 = emit (NewHandle h rules) (w\<lparr>next_addr := Suc h\<rparr>);
               w2 = SwapRootOperation (Some h) w1;
               oldHandle = wafHandle (insts w2 a);
               w3 = set_wafHandle a (Some h) w2
           in (None, (case oldHandle of None \<Rightarrow> w3 | Some old \<Rightarrow> Close old w3))))"

subsection \<open>The functions of appsec.go\<close>

text \<open>\<^verbatim>\<open>func Enabled() bool { return activeAppSec != nil && activeAppSec.started }\<close>\<close>

definition Enabled :: "world \<Rightarrow> bool" where
  "Enabled w = (case activeAppSec w of None \<Rightarrow> False | Some a \<Rightarrow> started (insts w a))"

text \<open>\<^verbatim>\<open>func newAppSec(cfg) *appsec { return &appsec{cfg: cfg} }\<close>: a fresh struct, the
  other fields zero.\<close>

definition newAppSec :: "config \<Rightarrow> world \<Rightarrow> addr \<times> world" where
  "newAppSec c w =
     (next_addr w,
      w\<lparr>insts := (insts w)(next_addr w :=
            \<lparr>cfg = c, limiter = None, wafHandle = None, started = False\<rparr>),
        next_addr := Suc (next_addr w)\<rparr>)"

text \<open>\<^verbatim>\<open>func logUnexpectedStartError(err error)\<close> logs at error level.\<close>

definition logUnexpectedStartError :: "error \<Rightarrow> world \<Rightarrow> world" where
  "logUnexpectedStartError e w = log Error w"

text \<open>
  \<^verbatim>\<open>func (a *appsec) start() error\<close>. A load error with \<^verbatim>\<open>!ok\<close> returns the wrapped
  error at once; a load error with \<^verbatim>\<open>ok\<close> is logged. Then the limiter is created,
  stored and started, \<^verbatim>\<open>swapWAF\<close> is run on the latest rules (its error returned as
  it is), remote blocking is enabled, \<^verbatim>\<open>started\<close> is set and an info line logged.
\<close>

definition start :: "env \<Rightarrow> addr \<Rightarrow> world \<Rightarrow> error option \<times> world" where
  "start en a w =
     (case waf_Load en of (ok, lerr) \<Rightarrow>
        if lerr \<noteq> None \<and> \<not> ok
        then (Some (Wrap ''error while loading libddwaf: '' (the lerr)), w)
        else
          (let w0 = (if lerr \<noteq> None then log Error w else w);
               rate = TraceRateLimit (cfg (insts w0 a));
               (l, w1) = NewTokenTicker rate rate w0;
               w2 = set_limiter a l w1;
               w3 = limiter_Start l w2
           in case swapWAF en (Latest (cfg (insts w3 a))) a w3 of
                (Some e, w4) \<Rightarrow> (Some e, w4)
              | (None, w4) \<Rightarrow>
                  (None, log Info (set_started a True (enableRCBlocking a w4)))))"

text \<open>
  \<^verbatim>\<open>func (a *appsec) stop()\<close>. The last statement calls \<^verbatim>\<open>Stop\<close> through the
  \<^verbatim>\<open>limiter\<close> pointer; through a nil pointer that is a nil dereference.
\<close>

definition stop :: "addr \<Rightarrow> world \<Rightarrow> fault + world" where
  "stop a w =
     (if \<not> started (insts w a) then Inr w
      else
        (let w1 = set_started a False w;
             w2 = disableRCBlocking a w1;
             w3 = SwapRootOperation None w2;
             w4 = (case wafHandle (insts w3 a) of
                     None \<Rightarrow> w3
                   | Some h \<Rightarrow> set_wafHandle a None (Close h w3))
         in case limiter (insts w4 a) of
              None \<Rightarrow> Inl NilDeref
            | Some l \<Rightarrow> Inr (limiter_Stop l w4)))"

text \<open>\<^verbatim>\<open>func setActiveAppSec(a *appsec)\<close>: a non-nil predecessor has its
  remote-configuration client stopped and is stopped, then the pointer is assigned.\<close>

definition setActiveAppSec :: "addr option \<Rightarrow> world \<Rightarrow> fault + world" where
  "setActiveAppSec a w =
     (case activeAppSec w of
        None \<Rightarrow> Inr (set_active a w)
      | Some old \<Rightarrow>
          (case stop old (stopRC old w) of
             Inl f \<Rightarrow> Inl f
           | Inr w' \<Rightarrow> Inr (set_active a w')))"

text \<open>\<^verbatim>\<open>func Stop() { setActiveAppSec(nil) }\<close>\<close>

definition Stop :: "world \<Rightarrow> fault + world" where
  "Stop w = setActiveAppSec None w"

text \<open>
  \<^verbatim>\<open>func Start(opts ...config.StartOption)\<close>. The options are functions applied to the
  configuration in order. Every early return of the source is a branch here.
\<close>

definition Start :: "env \<Rightarrow> (config \<Rightarrow> config) list \<Rightarrow> world \<Rightarrow> fault + world" where
  "Start en opts w =
     (case config_IsEnabled en of
        (enabled, set', Some err) \<Rightarrow> Inr (logUnexpectedStartError err w)
      | (enabled, set', None) \<Rightarrow>
          if set' \<and> \<not> enabled then Inr (log Debug w)
          else
            (case waf_Health en of (ok, herr) \<Rightarrow>
               if \<not> ok then Inr (if set' then log Error w else log Debug w)
               else
                 (case config_NewConfig en of
                    Inl err \<Rightarrow> Inr (logUnexpectedStartError err w)
                  | Inr cfg0 \<Rightarrow>
                      (let c = fold (\<lambda>opt x. opt x) opts cfg0;
                           (appsec, w1) = newAppSec c w;
                           w2 = log Debug w1;
                           w3 = (case startRC en appsec w2 of
                                   (Some e, w') \<Rightarrow> log Error w'
                                 | (None, w') \<Rightarrow> w')
                       in if \<not> set' then
                            (case enableRemoteActivation en appsec (log Debug w3) of
                               (Some e, w4) \<Rightarrow>
                                 Inr (stopRC appsec (logUnexpectedStartError e w4))
                             | (None, w4) \<Rightarrow>
                                 setActiveAppSec (Some appsec) (log Debug w4))
                          else
                            (case start en appsec w3 of
                               (Some e, w4) \<Rightarrow>
                                 Inr (stopRC appsec (logUnexpectedStartError e w4))
                             | (None, w4) \<Rightarrow> setActiveAppSec (Some appsec) w4)))))"

subsection \<open>Call sequences on one instance\<close>

text \<open>A caller's sequence of \<^verbatim>\<open>start\<close> and \<^verbatim>\<open>stop\<close> calls on one instance; each
  \<^verbatim>\<open>start\<close> comes with what the collaborators answer during it. The error that
  \<^verbatim>\<open>start\<close> returns is dropped, as a caller that goes on would do.\<close>

datatype call = CallStart env | CallStop

fun run :: "call list \<Rightarrow> addr \<Rightarrow> world \<Rightarrow> fault + world" where
  "run [] a w = Inr w"
| "run (CallStart en # cs) a w = run cs a (snd (start en a w))"
| "run (CallStop # cs) a w = (case stop a w of Inl f \<Rightarrow> Inl f | Inr w' \<Rightarrow> run cs a w')"

text \<open>The representation invariant of an instance: started instances hold an engine
  handle and a limiter, instances that are not started hold no engine handle.\<close>

definition handle_inv :: "addr \<Rightarrow> world \<Rightarrow> bool" where
  "handle_inv a w =
     (if started (insts w a)
      then wafHandle (insts w a) \<noteq> None \<and> limiter (insts w a) \<noteq> None
      else wafHandle (insts w a) = None)"

text \<open>Whether the first occurrence of \<open>x\<close> in a trace comes before every occurrence
  of \<open>y\<close>.\<close>

definition precedes :: "event \<Rightarrow> event \<Rightarrow> event list \<Rightarrow> bool" where
  "precedes x y tr = (x \<in> set tr \<and> y \<notin> set (takeWhile (\<lambda>e. e \<noteq> x) tr))"

subsection \<open>Concrete states and answers\<close>

definition cfg1 :: config where
  "cfg1 = \<lparr>TraceRateLimit = 100, Latest = 1\<rparr>"

definition w_init :: world where
  "w_init =
     \<lparr>insts = (\<lambda>_. \<lparr>cfg = cfg1, limiter = None, wafHandle = None, started = False\<rparr>),
      next_addr = 0, activeAppSec = None, root = None, ticking = {}, closed = {},
      rcClients = {}, rcBlocking = {}, remoteActivation = {}, trace = []\<rparr>"


text \<open>Everything succeeds; the argument is whether \<^verbatim>\<open>DD_APPSEC_ENABLED\<close> is set.\<close>

definition env_ok :: "bool \<Rightarrow> env" where
  "env_ok set' =
     \<lparr>config_IsEnabled = (True, set', None), waf_Health = (True, None),
      waf_Load = (True, None), config_NewConfig = Inr cfg1, startRC_result = None,
      enableRemoteActivation_result = None, newWAFHandle_result = (\<lambda>_. None)\<rparr>"

text \<open>The state after \<^verbatim>\<open>Start\<close> on \<open>w_init\<close> with the variable set and everything
  succeeding: instance 0 is active and started, its limiter is 1, its handle 2.\<close>

definition w_A :: world where
  "w_A =
     \<lparr>insts = (\<lambda>_. \<lparr>cfg = cfg1, limiter = None, wafHandle = None, started = False\<rparr>)
        (0 := \<lparr>cfg = cfg1, limiter = Some 1, wafHandle = Some 2, started = True\<rparr>),
      next_addr = 3, activeAppSec = Some 0, root = Some 2, ticking = {1}, closed = {},
      rcClients = {0}, rcBlocking = {0}, remoteActivation = {},
      trace = [Log Debug, RCStart 0, NewTicker 1 100 100, SetLimiter 0 1, LimiterStart 1,
        NewHandle 2 1, SwapRoot (Some 2), SetWafHandle 0 (Some 2), RCBlockingEnable 0,
        SetStarted 0 True, Log Info, SetActive (Some 0)]\<rparr>"


text \<open>As \<open>env_ok True\<close>, but no ruleset yields an engine handle.\<close>

definition env_bad_rules :: env where
  "env_bad_rules =
     (env_ok True)\<lparr>newWAFHandle_result := (\<lambda>_. Some (Err ''invalid rules''))\<rparr>"

text \<open>As \<open>env_ok True\<close>, but \<^verbatim>\<open>waf.Health()\<close> reports the engine unusable.\<close>

definition env_unhealthy :: env where
  "env_unhealthy = (env_ok True)\<lparr>waf_Health := (False, Some (Err ''no libddwaf''))\<rparr>"

text \<open>The variable is not set and the remote activation cannot be enabled.\<close>

definition env_no_remote :: env where
  "env_no_remote =
     (env_ok False)\<lparr>enableRemoteActivation_result := Some (Err ''no remote config'')\<rparr>"

text \<open>The state after a second \<^verbatim>\<open>Start\<close>, on \<open>w_A\<close>, with the variable set and everything
  succeeding: instance 3 is active and started, its limiter is 4, its handle 5.\<close>

definition w_AB :: world where
  "w_AB =
     \<lparr>insts = (\<lambda>_. \<lparr>cfg = cfg1, limiter = None, wafHandle = None, started = False\<rparr>)
        (0 := \<lparr>cfg = cfg1, limiter = Some 1, wafHandle = None, started = False\<rparr>,
         3 := \<lparr>cfg = cfg1, limiter = Some 4, wafHandle = Some 5, started = True\<rparr>),
      next_addr = 6, activeAppSec = Some 3, root = None, ticking = {4}, closed = {2},
      rcClients = {3}, rcBlocking = {3}, remoteActivation = {},
      trace = trace w_A @
        [Log Debug, RCStart 3, NewTicker 4 100 100, SetLimiter 3 4, LimiterStart 4,
         NewHandle 5 1, SwapRoot (Some 5), SetWafHandle 3 (Some 5), RCBlockingEnable 3,
         SetStarted 3 True, Log Info,
         RCStop 0, SetStarted 0 False, RCBlockingDisable 0, SwapRoot None, HandleClose 2,
         SetWafHandle 0 None, LimiterStop 1, SetActive (Some 3)]\<rparr>"

text \<open>The state after \<^verbatim>\<open>Start\<close> on \<open>w_init\<close> with the variable set when no engine handle
  can be built from the rules.\<close>

definition w_leak :: world where
  "w_leak =
     \<lparr>insts = (\<lambda>_. \<lparr>cfg = cfg1, limiter = None, wafHandle = None, started = False\<rparr>)
        (0 := \<lparr>cfg = cfg1, limiter = Some 1, wafHandle = None, started = False\<rparr>),
      next_addr = 2, activeAppSec = None, root = None, ticking = {1}, closed = {},
      rcClients = {}, rcBlocking = {}, remoteActivation = {},
      trace = [Log Debug, RCStart 0, NewTicker 1 100 100, SetLimiter 0 1, LimiterStart 1,
        Log Error, RCStop 0]\<rparr>"

section \<open>Basic facts\<close>

lemmas prim_defs = emit_def log_def upd_inst_def set_limiter_def set_wafHandle_def
  set_started_def set_active_def NewTokenTicker_def limiter_Start_def limiter_Stop_def
  SwapRootOperation_def Close_def stopRC_def enableRCBlocking_def disableRCBlocking_def
  logUnexpectedStartError_def

lemmas env_defs = env_ok_def cfg1_def

lemma Start_w_init: "Start (env_ok True) [] w_init = Inr w_A"
  by (simp add: Start_def start_def swapWAF_def setActiveAppSec_def startRC_def newAppSec_def
        prim_defs env_defs w_init_def w_A_def Let_def eval_nat_numeral)

section \<open>The query surface\<close>

text \<open>
  Claim C2. In every program state, \<^verbatim>\<open>Enabled()\<close> returns true if and only if the
  process-wide active instance is non-null and that instance's \<^verbatim>\<open>started\<close> flag is
  true.
\<close>

theorem Enabled_iff_active_and_started:
  "Enabled w \<longleftrightarrow> (\<exists>a. activeAppSec w = Some a \<and> started (insts w a))"
  by (simp add: Enabled_def split: option.split)

section \<open>The method start\<close>

lemma start_frame: "b \<noteq> a \<Longrightarrow> insts (snd (start en a w)) b = insts w b"
  by (simp add: start_def swapWAF_def prim_defs Let_def split: option.split prod.split)

lemma start_active: "activeAppSec (snd (start en a w)) = activeAppSec w"
  by (simp add: start_def swapWAF_def prim_defs Let_def split: option.split prod.split)

lemma start_trace:
  "\<exists>evs. trace (snd (start en a w)) = trace w @ evs \<and> (\<forall>p. SetActive p \<notin> set evs)"
  by (simp add: start_def swapWAF_def prim_defs Let_def split: option.split prod.split)

lemma start_ok_iff:
  "fst (start en a w) = None \<longleftrightarrow>
     \<not> (snd (waf_Load en) \<noteq> None \<and> \<not> fst (waf_Load en)) \<and>
     newWAFHandle_result en (Latest (cfg (insts w a))) = None"
  by (simp add: start_def swapWAF_def prim_defs Let_def split: option.split prod.split)



text \<open>
  Claim C5. For every instance and every ruleset whose engine-handle construction fails,
  \<^verbatim>\<open>swapWAF\<close> returns the error and changes nothing, so the installed engine handle and
  \<^verbatim>\<open>Enabled()\<close> are as before; and \<^verbatim>\<open>start()\<close>, which returns that error as it is,
  leaves the instance's engine handle, the registry root, the closed handles and
  \<^verbatim>\<open>Enabled()\<close> as before.
\<close>

theorem swapWAF_failure_keeps_handle:
  "newWAFHandle_result en r = Some e \<longrightarrow>
     swapWAF en r a w = (Some e, w) \<and>
     wafHandle (insts (snd (swapWAF en r a w)) a) = wafHandle (insts w a) \<and>
     Enabled (snd (swapWAF en r a w)) = Enabled w \<and>
     (r = Latest (cfg (insts w a)) \<and> \<not> (snd (waf_Load en) \<noteq> None \<and> \<not> fst (waf_Load en)) \<longrightarrow>
        fst (start en a w) = Some e \<and>
        wafHandle (insts (snd (start en a w)) a) = wafHandle (insts w a) \<and>
        started (insts (snd (start en a w)) a) = started (insts w a) \<and>
        root (snd (start en a w)) = root w \<and>
        closed (snd (start en a w)) = closed w \<and>
        Enabled (snd (start en a w)) = Enabled w)"
proof (intro impI conjI)
  assume f: "newWAFHandle_result en r = Some e"
  then show s: "swapWAF en r a w = (Some e, w)"
    by (simp add: swapWAF_def)
  then show "wafHandle (insts (snd (swapWAF en r a w)) a) = wafHandle (insts w a)"
    "Enabled (snd (swapWAF en r a w)) = Enabled w"
    by simp_all
  assume "r = Latest (cfg (insts w a)) \<and> \<not> (snd (waf_Load en) \<noteq> None \<and> \<not> fst (waf_Load en))"
  with f have g: "newWAFHandle_result en (Latest (cfg (insts w a))) = Some e"
    "\<not> (snd (waf_Load en) \<noteq> None \<and> \<not> fst (waf_Load en))"
    by simp_all
  from g show "fst (start en a w) = Some e"
    by (cases "waf_Load en")
       (auto simp add: start_def swapWAF_def prim_defs Let_def split: option.split)
  from g show "wafHandle (insts (snd (start en a w)) a) = wafHandle (insts w a)"
    by (cases "waf_Load en")
       (auto simp add: start_def swapWAF_def prim_defs Let_def split: option.split)
  from g show st: "started (insts (snd (start en a w)) a) = started (insts w a)"
    by (cases "waf_Load en")
       (auto simp add: start_def swapWAF_def prim_defs Let_def split: option.split)
  from g show "root (snd (start en a w)) = root w"
    by (cases "waf_Load en")
       (auto simp add: start_def swapWAF_def prim_defs Let_def split: option.split)
  from g show "closed (snd (start en a w)) = closed w"
    by (cases "waf_Load en")
       (auto simp add: start_def swapWAF_def prim_defs Let_def split: option.split)
  show "Enabled (snd (start en a w)) = Enabled w"
  proof (cases "activeAppSec w")
    case None
    then show ?thesis by (simp add: Enabled_def start_active)
  next
    case (Some b)
    then show ?thesis using st start_frame[of b a en w]
      by (cases "b = a") (simp_all add: Enabled_def start_active)
  qed
qed

theorem swapWAF_failure_keeps_handle_witness:
  "newWAFHandle_result env_bad_rules 7 = Some (Err ''invalid rules'') \<and>
   swapWAF env_bad_rules 7 0 w_A = (Some (Err ''invalid rules''), w_A) \<and>
   wafHandle (insts (snd (swapWAF env_bad_rules 7 0 w_A)) 0) = Some 2 \<and>
   Enabled (snd (swapWAF env_bad_rules 7 0 w_A)) \<and>
   newWAFHandle_result env_bad_rules 1 = Some (Err ''invalid rules'') \<and>
   1 = Latest (cfg (insts w_A 0)) \<and>
   fst (start env_bad_rules 0 w_A) = Some (Err ''invalid rules'') \<and>
   wafHandle (insts (snd (start env_bad_rules 0 w_A)) 0) = Some 2 \<and>
   root (snd (start env_bad_rules 0 w_A)) = Some 2 \<and>
   Enabled (snd (start env_bad_rules 0 w_A))"
  using swapWAF_failure_keeps_handle[of env_bad_rules 7 "Err ''invalid rules''" 0 w_A]
    swapWAF_failure_keeps_handle[of env_bad_rules 1 "Err ''invalid rules''" 0 w_A]
  by (simp add: env_bad_rules_def env_defs w_A_def Enabled_def)

section \<open>The method stop\<close>

text \<open>
  Claim C6. For every started instance (one that holds its limiter, as every instance
  that \<^verbatim>\<open>start()\<close> has started does), \<^verbatim>\<open>stop()\<close> returns, and it performs its
  steps in this order: \<^verbatim>\<open>started = false\<close>, then the disabling of
  remote-configuration-driven updates, then the swap of the registry root to nil, then
  (when the instance holds an engine handle) the closing of the handle and the write of
  nil to the field, and last the stopping of the rate limiter. The resulting state is
  the composition of these steps in that order: the instance is not started, remote
  blocking is off for it, the root is nil, the handle is closed and the field nil, the
  limiter is not ticking, nothing else changes, and the trace lists the steps in order.
\<close>

theorem stop_order:
  assumes "started (insts w a)" and "limiter (insts w a) = Some l"
  shows "\<exists>w'. stop a w = Inr w' \<and>
           w' = limiter_Stop l
                  ((case wafHandle (insts w a) of
                      None \<Rightarrow> (\<lambda>v. v)
                    | Some h \<Rightarrow> (\<lambda>v. set_wafHandle a None (Close h v)))
                     (SwapRootOperation None (disableRCBlocking a (set_started a False w)))) \<and>
           \<not> started (insts w' a) \<and>
           rcBlocking w' = rcBlocking w - {a} \<and>
           root w' = None \<and>
           wafHandle (insts w' a) = None \<and>
           closed w' = (case wafHandle (insts w a) of
                          None \<Rightarrow> closed w
                        | Some h \<Rightarrow> insert h (closed w)) \<and>
           ticking w' = ticking w - {l} \<and>
           limiter (insts w' a) = Some l \<and> cfg (insts w' a) = cfg (insts w a) \<and>
           (\<forall>b. b \<noteq> a \<longrightarrow> insts w' b = insts w b) \<and>
           activeAppSec w' = activeAppSec w \<and> next_addr w' = next_addr w \<and>
           rcClients w' = rcClients w \<and> remoteActivation w' = remoteActivation w \<and>
           trace w' = trace w @ [SetStarted a False, RCBlockingDisable a, SwapRoot None] @
             (case wafHandle (insts w a) of
                None \<Rightarrow> []
              | Some h \<Rightarrow> [HandleClose h, SetWafHandle a None]) @
             [LimiterStop l]"
proof (cases "wafHandle (insts w a)")
  case None
  with assms show ?thesis
    by (simp add: stop_def prim_defs Let_def)
next
  case (Some h)
  with assms show ?thesis
    by (simp add: stop_def prim_defs Let_def)
qed

theorem stop_order_witness:
  "started (insts w_A 0) \<and> limiter (insts w_A 0) = Some 1 \<and>
   wafHandle (insts w_A 0) = Some 2 \<and> root w_A = Some 2 \<and> ticking w_A = {1} \<and>
   rcBlocking w_A = {0} \<and> closed w_A = {} \<and>
   (\<exists>w'. stop 0 w_A = Inr w' \<and>
      \<not> started (insts w' 0) \<and> rcBlocking w' = {} \<and> root w' = None \<and>
      wafHandle (insts w' 0) = None \<and> closed w' = {2} \<and> ticking w' = {} \<and>
      trace w' = trace w_A @ [SetStarted 0 False, RCBlockingDisable 0, SwapRoot None,
        HandleClose 2, SetWafHandle 0 None, LimiterStop 1])"
proof -
  have s: "started (insts w_A 0)" and l: "limiter (insts w_A 0) = Some 1"
    by (simp_all add: w_A_def)
  have h: "wafHandle (insts w_A 0) = Some 2" and r: "root w_A = Some 2"
    and t: "ticking w_A = {1}" and b: "rcBlocking w_A = {0}" and c: "closed w_A = {}"
    by (simp_all add: w_A_def)
  from stop_order[OF s l]
  obtain w' where "stop 0 w_A = Inr w'" "\<not> started (insts w' 0)"
    "rcBlocking w' = rcBlocking w_A - {0}" "root w' = None" "wafHandle (insts w' 0) = None"
    "closed w' = (case wafHandle (insts w_A 0) of
                    None \<Rightarrow> closed w_A
                  | Some h \<Rightarrow> insert h (closed w_A))"
    "ticking w' = ticking w_A - {1}"
    "trace w' = trace w_A @ [SetStarted 0 False, RCBlockingDisable 0, SwapRoot None] @
             (case wafHandle (insts w_A 0) of
                None \<Rightarrow> []
              | Some h \<Rightarrow> [HandleClose h, SetWafHandle 0 None]) @
             [LimiterStop 1]"
    by blast
  then show ?thesis using s l h r t b c by (intro conjI exI[of _ w']) simp_all
qed

text \<open>
  Claim C9. Stop is a no-op when nothing is started. \<^verbatim>\<open>stop()\<close> on an instance whose
  \<^verbatim>\<open>started\<close> flag is false returns at once, the state unchanged. The package-level
  \<^verbatim>\<open>Stop()\<close> with no active instance assigns nil to the pointer that is nil already:
  every component of the state is as before, and the trace records that one assignment.
\<close>

theorem stop_noop_when_not_started:
  "(\<not> started (insts w a) \<longrightarrow> stop a w = Inr w) \<and>
   (activeAppSec w = None \<longrightarrow>
      Stop w = Inr (w\<lparr>trace := trace w @ [SetActive None]\<rparr>) \<and>
      activeAppSec (w\<lparr>trace := trace w @ [SetActive None]\<rparr>) = None)"
  by (simp add: stop_def Stop_def setActiveAppSec_def set_active_def emit_def)

theorem stop_noop_when_not_started_witness:
  "\<not> started (insts w_init 0) \<and> stop 0 w_init = Inr w_init \<and>
   activeAppSec w_init = None \<and>
   Stop w_init = Inr (w_init\<lparr>trace := trace w_init @ [SetActive None]\<rparr>)"
  using stop_noop_when_not_started[of w_init 0] by (simp add: w_init_def)

section \<open>The package-level Start\<close>

lemma start_error_keeps_started:
  "fst (start en a w) \<noteq> None \<Longrightarrow>
     started (insts (snd (start en a w)) a) = started (insts w a)"
  by (cases "waf_Load en")
     (auto simp add: start_def swapWAF_def prim_defs Let_def split: option.splits if_splits)

text \<open>
  Claim C10. For every call of \<^verbatim>\<open>Start\<close> in which \<^verbatim>\<open>waf.Health()\<close> reports
  unusable, whatever the local enablement, \<^verbatim>\<open>Start\<close> returns without a panic and
  its only effect is one log line: no instance is constructed or published, no
  instance changes, \<^verbatim>\<open>Enabled()\<close> keeps its value (so it stays false). With the
  enablement explicitly true the line is logged at error level.
\<close>

theorem Start_unhealthy_engine:
  assumes "\<not> fst (waf_Health en)"
  shows "\<exists>lv w'. Start en opts w = Inr w' \<and> w' = w\<lparr>trace := trace w @ [Log lv]\<rparr> \<and>
           insts w' = insts w \<and> next_addr w' = next_addr w \<and>
           activeAppSec w' = activeAppSec w \<and> Enabled w' = Enabled w \<and>
           (config_IsEnabled en = (True, True, None) \<longrightarrow> lv = Error)"
proof -
  obtain enabled set' ierr where ie: "config_IsEnabled en = (enabled, set', ierr)"
    by (cases "config_IsEnabled en") auto
  obtain herr where h: "waf_Health en = (False, herr)"
    using assms by (cases "waf_Health en") auto
  have "\<exists>lv. Start en opts w = Inr (w\<lparr>trace := trace w @ [Log lv]\<rparr>) \<and>
          (config_IsEnabled en = (True, True, None) \<longrightarrow> lv = Error)"
    using ie h by (cases ierr) (auto simp add: Start_def prim_defs)
  then obtain lv where lv: "Start en opts w = Inr (w\<lparr>trace := trace w @ [Log lv]\<rparr>)"
    "config_IsEnabled en = (True, True, None) \<longrightarrow> lv = Error"
    by blast
  have "Enabled (w\<lparr>trace := trace w @ [Log lv]\<rparr>) = Enabled w"
    by (simp add: Enabled_def split: option.split)
  with lv show ?thesis
    by (intro exI[of _ lv] exI[of _ "w\<lparr>trace := trace w @ [Log lv]\<rparr>"]) simp
qed

theorem Start_unhealthy_engine_witness:
  "\<not> fst (waf_Health env_unhealthy) \<and>
   Start env_unhealthy [] w_init = Inr (w_init\<lparr>trace := [Log Error]\<rparr>) \<and>
   \<not> Enabled (w_init\<lparr>trace := [Log Error]\<rparr>)"
proof -
  have h: "\<not> fst (waf_Health env_unhealthy)"
    by (simp add: env_unhealthy_def)
  have i: "config_IsEnabled env_unhealthy = (True, True, None)"
    by (simp add: env_unhealthy_def env_defs)
  have t: "trace w_init = []" and e: "\<not> Enabled w_init"
    by (simp_all add: w_init_def Enabled_def)
  show ?thesis using h i e Start_unhealthy_engine[OF h, of "[]" w_init] by (auto simp add: t)
qed

lemma Start_w_A: "Start (env_ok True) [] w_A = Inr w_AB"
  by (simp add: Start_def start_def swapWAF_def setActiveAppSec_def stop_def startRC_def
        newAppSec_def prim_defs env_defs w_A_def w_AB_def Let_def eval_nat_numeral fun_eq_iff
        insert_Diff_if)

text \<open>
  Claim C1 says that when \<^verbatim>\<open>Start\<close> installs a new instance B while an instance A
  is active, A is fully stopped before any of B's Start effects become observable. The
  code does otherwise. \<^verbatim>\<open>Start\<close> runs \<^verbatim>\<open>appsec.startRC()\<close> and
  \<^verbatim>\<open>appsec.start()\<close> on B before it calls \<^verbatim>\<open>setActiveAppSec\<close>, which is where A
  is stopped. On \<open>w_A\<close> (A is instance 0, limiter 1, handle 2; B becomes instance 3,
  limiter 4, handle 5), B's remote-configuration client, limiter, registry root and
  \<^verbatim>\<open>started\<close> flag are all in place before A's client is stopped, A's flag cleared,
  A's handle closed and A's limiter stopped; and A's \<^verbatim>\<open>stop()\<close>, running last,
  swaps the registry root to nil, which detaches the root that B's \<^verbatim>\<open>start()\<close>
  installed. The call ends with B published and started, its handle open,
  \<^verbatim>\<open>Enabled()\<close> true, and no root in the registry.
\<close>

theorem Start_over_started_instance_loses_new_root:
  "activeAppSec w_A = Some 0 \<and> started (insts w_A 0) \<and> root w_A = Some 2 \<and>
   Start (env_ok True) [] w_A = Inr w_AB \<and>
   precedes (RCStart 3) (RCStop 0) (trace w_AB) \<and>
   precedes (LimiterStart 4) (LimiterStop 1) (trace w_AB) \<and>
   precedes (SwapRoot (Some 5)) (HandleClose 2) (trace w_AB) \<and>
   precedes (SetStarted 3 True) (SetStarted 0 False) (trace w_AB) \<and>
   \<not> precedes (LimiterStop 1) (LimiterStart 4) (trace w_AB) \<and>
   \<not> precedes (HandleClose 2) (SwapRoot (Some 5)) (trace w_AB) \<and>
   precedes (SwapRoot (Some 5)) (SwapRoot None) (trace w_AB) \<and>
   activeAppSec w_AB = Some 3 \<and> started (insts w_AB 3) \<and>
   wafHandle (insts w_AB 3) = Some 5 \<and> 5 \<notin> closed w_AB \<and>
   Enabled w_AB \<and> root w_AB = None"
  by (simp add: Start_w_A) (simp add: w_A_def w_AB_def precedes_def Enabled_def)

text \<open>
  Claim C7. For every call of \<^verbatim>\<open>Start\<close> that constructs the new instance and in
  which that instance's \<^verbatim>\<open>start()\<close> (called when the variable is set; by
  \<open>start_ok_iff\<close> it returns an error exactly when the load is fatal or no engine handle
  can be built from the latest rules) or its remote-activation enabling (called when the
  variable is not set) returns an error: the call returns, the active pointer is as
  before and is never assigned during the call, the new instance is not started, and
  the last statement of the call stops the new instance's remote-configuration client.
\<close>

theorem Start_error_never_publishes:
  assumes ie: "config_IsEnabled en = (enabled, set', None)"
    and en: "set' \<longrightarrow> enabled"
    and he: "fst (waf_Health en)"
    and nc: "config_NewConfig en = Inr c0"
    and err: "if set'
              then (snd (waf_Load en) \<noteq> None \<and> \<not> fst (waf_Load en)) \<or>
                   newWAFHandle_result en (Latest (fold (\<lambda>opt x. opt x) opts c0)) \<noteq> None
              else enableRemoteActivation_result en \<noteq> None"
  shows "\<exists>w' evs. Start en opts w = Inr w' \<and>
           activeAppSec w' = activeAppSec w \<and>
           \<not> started (insts w' (next_addr w)) \<and>
           next_addr w \<notin> rcClients w' \<and>
           (\<forall>p. SetActive p \<notin> set evs) \<and>
           trace w' = trace w @ evs @ [RCStop (next_addr w)]"
proof -
  obtain herr where h: "waf_Health en = (True, herr)"
    using he by (cases "waf_Health en") auto
  define c where "c = fold (\<lambda>opt x. opt x) opts c0"
  define B where "B = fst (newAppSec c w)"
  have B_eq: "B = next_addr w"
    by (simp add: B_def newAppSec_def)
  define w3 where "w3 = (case startRC en B (log Debug (snd (newAppSec c w))) of
                           (Some e, w') \<Rightarrow> log Error w'
                         | (None, w') \<Rightarrow> w')"
  have w3_active: "activeAppSec w3 = activeAppSec w"
    by (simp add: w3_def newAppSec_def startRC_def prim_defs split: option.split)
  have w3_started: "\<not> started (insts w3 B)"
    by (simp add: w3_def B_eq newAppSec_def startRC_def prim_defs split: option.split)
  have w3_cfg: "cfg (insts w3 B) = c"
    by (simp add: w3_def B_eq newAppSec_def startRC_def prim_defs split: option.split)
  have "\<exists>evs. trace w3 = trace w @ evs \<and> (\<forall>p. SetActive p \<notin> set evs)"
    by (simp add: w3_def newAppSec_def startRC_def prim_defs split: option.split)
  then obtain evs3 where evs3: "trace w3 = trace w @ evs3" "\<forall>p. SetActive p \<notin> set evs3"
    by blast
  show ?thesis
  proof (cases set')
    case True
    have "fst (start en B w3) \<noteq> None"
      using err True by (auto simp add: start_ok_iff w3_cfg c_def)
    then obtain e where e: "fst (start en B w3) = Some e"
      by blast
    define w4 where "w4 = snd (start en B w3)"
    define w5 where "w5 = stopRC B (logUnexpectedStartError e w4)"
    have "Start en opts w = Inr w5"
      using ie nc h en True e unfolding w5_def w4_def w3_def B_def c_def
      by (simp add: Start_def Let_def case_prod_beta)
    moreover obtain evs4 where evs4: "trace w4 = trace w3 @ evs4" "\<forall>p. SetActive p \<notin> set evs4"
      using start_trace[of en B w3] by (auto simp: w4_def)
    have "activeAppSec w5 = activeAppSec w"
      by (simp add: w5_def prim_defs w4_def start_active w3_active)
    moreover have "\<not> started (insts w5 (next_addr w))"
      using start_error_keeps_started[of en B w3] e w3_started
      by (simp add: w5_def prim_defs w4_def B_eq)
    moreover have "next_addr w \<notin> rcClients w5"
      by (simp add: w5_def prim_defs B_eq)
    moreover have "trace w5 = trace w @ (evs3 @ evs4 @ [Log Error]) @ [RCStop (next_addr w)]"
      using evs3 evs4 by (simp add: w5_def prim_defs B_eq)
    moreover have "\<forall>p. SetActive p \<notin> set (evs3 @ evs4 @ [Log Error])"
      using evs3 evs4 by simp
    ultimately show ?thesis by blast
  next
    case False
    then obtain e where e: "enableRemoteActivation_result en = Some e"
      using err by auto
    define w5 where "w5 = stopRC B (logUnexpectedStartError e (log Debug w3))"
    have "Start en opts w = Inr w5"
      using ie nc h en False e unfolding w5_def w3_def B_def c_def
      by (simp add: Start_def Let_def case_prod_beta enableRemoteActivation_def)
    moreover have "activeAppSec w5 = activeAppSec w"
      by (simp add: w5_def prim_defs w3_active)
    moreover have "\<not> started (insts w5 (next_addr w))"
      using w3_started by (simp add: w5_def prim_defs B_eq)
    moreover have "next_addr w \<notin> rcClients w5"
      by (simp add: w5_def prim_defs B_eq)
    moreover have "trace w5 = trace w @ (evs3 @ [Log Debug, Log Error]) @ [RCStop (next_addr w)]"
      using evs3 by (simp add: w5_def prim_defs B_eq)
    moreover have "\<forall>p. SetActive p \<notin> set (evs3 @ [Log Debug, Log Error])"
      using evs3 by simp
    ultimately show ?thesis by blast
  qed
qed

theorem Start_error_never_publishes_witness:
  "config_IsEnabled env_bad_rules = (True, True, None) \<and> fst (waf_Health env_bad_rules) \<and>
   config_NewConfig env_bad_rules = Inr cfg1 \<and>
   newWAFHandle_result env_bad_rules (Latest (fold (\<lambda>opt x. opt x) [] cfg1)) \<noteq> None \<and>
   (\<exists>w' evs. Start env_bad_rules [] w_A = Inr w' \<and> activeAppSec w' = Some 0 \<and>
      \<not> started (insts w' 3) \<and> 3 \<notin> rcClients w' \<and>
      trace w' = trace w_A @ evs @ [RCStop 3]) \<and>
   config_IsEnabled env_no_remote = (True, False, None) \<and> fst (waf_Health env_no_remote) \<and>
   config_NewConfig env_no_remote = Inr cfg1 \<and>
   enableRemoteActivation_result env_no_remote \<noteq> None \<and>
   (\<exists>w' evs. Start env_no_remote [] w_A = Inr w' \<and> activeAppSec w' = Some 0 \<and>
      \<not> started (insts w' 3) \<and> 3 \<notin> rcClients w' \<and>
      trace w' = trace w_A @ evs @ [RCStop 3])"
proof -
  have n: "next_addr w_A = 3" and a: "activeAppSec w_A = Some 0"
    by (simp_all add: w_A_def)
  have i1: "config_IsEnabled env_bad_rules = (True, True, None)"
    and h1: "fst (waf_Health env_bad_rules)"
    and c1: "config_NewConfig env_bad_rules = Inr cfg1"
    and r1: "newWAFHandle_result env_bad_rules (Latest (fold (\<lambda>opt x. opt x) [] cfg1)) \<noteq> None"
    by (simp_all add: env_bad_rules_def env_ok_def)
  have i2: "config_IsEnabled env_no_remote = (True, False, None)"
    and h2: "fst (waf_Health env_no_remote)"
    and c2: "config_NewConfig env_no_remote = Inr cfg1"
    and r2: "enableRemoteActivation_result env_no_remote \<noteq> None"
    by (simp_all add: env_no_remote_def env_ok_def)
  have e1: "if True
            then (snd (waf_Load env_bad_rules) \<noteq> None \<and> \<not> fst (waf_Load env_bad_rules)) \<or>
                 newWAFHandle_result env_bad_rules (Latest (fold (\<lambda>opt x. opt x) [] cfg1)) \<noteq> None
            else enableRemoteActivation_result env_bad_rules \<noteq> None"
    using r1 by simp
  have e2: "if False
            then (snd (waf_Load env_no_remote) \<noteq> None \<and> \<not> fst (waf_Load env_no_remote)) \<or>
                 newWAFHandle_result env_no_remote (Latest (fold (\<lambda>opt x. opt x) [] cfg1)) \<noteq> None
            else enableRemoteActivation_result env_no_remote \<noteq> None"
    using r2 by simp
  have t: "True \<longrightarrow> True" and f: "False \<longrightarrow> True"
    by simp_all
  from Start_error_never_publishes[OF i1 t h1 c1 e1, of w_A]
  have s1: "\<exists>w' evs. Start env_bad_rules [] w_A = Inr w' \<and> activeAppSec w' = Some 0 \<and>
      \<not> started (insts w' 3) \<and> 3 \<notin> rcClients w' \<and>
      trace w' = trace w_A @ evs @ [RCStop 3]"
    unfolding n a by blast
  from Start_error_never_publishes[OF i2 f h2 c2 e2, of w_A]
  have s2: "\<exists>w' evs. Start env_no_remote [] w_A = Inr w' \<and> activeAppSec w' = Some 0 \<and>
      \<not> started (insts w' 3) \<and> 3 \<notin> rcClients w' \<and>
      trace w' = trace w_A @ evs @ [RCStop 3]"
    unfolding n a by blast
  show ?thesis using i1 h1 c1 r1 s1 i2 h2 c2 r2 s2 by blast
qed

section \<open>Sequences of start and stop\<close>

lemma start_handle_inv: "handle_inv a w \<Longrightarrow> handle_inv a (snd (start en a w))"
  by (cases "waf_Load en")
     (auto simp add: handle_inv_def start_def swapWAF_def prim_defs Let_def
        split: option.split if_splits)

lemma stop_handle_inv_case:
  "handle_inv a w \<Longrightarrow>
     (case stop a w of
        Inl f \<Rightarrow> False
      | Inr w' \<Rightarrow> handle_inv a w' \<and> \<not> started (insts w' a) \<and>
          wafHandle (insts w' a) = None)"
  by (auto simp add: handle_inv_def stop_def prim_defs Let_def split: option.split if_splits)

lemma stop_handle_inv:
  assumes "handle_inv a w"
  shows "\<exists>w'. stop a w = Inr w' \<and> handle_inv a w' \<and> \<not> started (insts w' a) \<and>
       wafHandle (insts w' a) = None"
  using stop_handle_inv_case[OF assms] by (cases "stop a w") auto

lemma run_handle_inv:
  "handle_inv a w \<Longrightarrow>
     \<exists>w'. run cs a w = Inr w' \<and> handle_inv a w' \<and>
       (cs \<noteq> [] \<and> last cs = CallStop \<longrightarrow> wafHandle (insts w' a) = None)"
proof (induction cs arbitrary: w)
  case Nil
  then show ?case by simp
next
  case (Cons c cs)
  show ?case
  proof (cases c)
    case (CallStart en)
    from Cons.IH[OF start_handle_inv[OF Cons.prems, of en]]
    obtain w' where w': "run cs a (snd (start en a w)) = Inr w'" "handle_inv a w'"
      "cs \<noteq> [] \<and> last cs = CallStop \<longrightarrow> wafHandle (insts w' a) = None"
      by blast
    then show ?thesis using CallStart by auto
  next
    case CallStop
    from stop_handle_inv[OF Cons.prems]
    obtain w1 where w1: "stop a w = Inr w1" "handle_inv a w1" "wafHandle (insts w1 a) = None"
      by blast
    from Cons.IH[OF w1(2)]
    obtain w' where w': "run cs a w1 = Inr w'" "handle_inv a w'"
      "cs \<noteq> [] \<and> last cs = CallStop \<longrightarrow> wafHandle (insts w' a) = None"
      by blast
    show ?thesis
    proof (cases "cs = []")
      case True
      then show ?thesis using CallStop w1 by simp
    next
      case False
      then show ?thesis using CallStop w1 w' by simp
    qed
  qed
qed

lemma newAppSec_handle_inv: "handle_inv (fst (newAppSec c w)) (snd (newAppSec c w))"
  by (simp add: handle_inv_def newAppSec_def)

text \<open>
  Claim C4. For a freshly constructed instance and every sequence of \<^verbatim>\<open>start\<close> and
  \<^verbatim>\<open>stop\<close> calls on it (so also every sequence in which stop follows a successful
  start, and every prefix of one), the sequence runs without a fault, at its end
  \<^verbatim>\<open>started\<close> implies that the engine handle is non-nil, and when the last call is
  \<^verbatim>\<open>stop\<close> the engine handle is nil.
\<close>

theorem start_stop_handle_invariant:
  "\<exists>w'. run cs (fst (newAppSec c w)) (snd (newAppSec c w)) = Inr w' \<and>
     (started (insts w' (fst (newAppSec c w))) \<longrightarrow>
        wafHandle (insts w' (fst (newAppSec c w))) \<noteq> None) \<and>
     (cs \<noteq> [] \<and> last cs = CallStop \<longrightarrow> wafHandle (insts w' (fst (newAppSec c w))) = None)"
  using run_handle_inv[OF newAppSec_handle_inv, of cs c w]
  by (auto simp: handle_inv_def split: if_splits)

lemma run_start_started:
  "started (insts (projr (run [CallStart (env_ok True), CallStop, CallStart (env_ok True)]
      (fst (newAppSec cfg1 w_init)) (snd (newAppSec cfg1 w_init)))) (fst (newAppSec cfg1 w_init)))"
  by (simp add: start_def stop_def swapWAF_def newAppSec_def prim_defs env_defs w_init_def Let_def)

theorem start_stop_handle_invariant_witness:
  "(\<exists>w'. run [CallStart (env_ok True), CallStop, CallStart (env_ok True)]
            (fst (newAppSec cfg1 w_init)) (snd (newAppSec cfg1 w_init)) = Inr w' \<and>
      started (insts w' (fst (newAppSec cfg1 w_init))) \<and>
      wafHandle (insts w' (fst (newAppSec cfg1 w_init))) \<noteq> None) \<and>
   [CallStart (env_ok True), CallStop] \<noteq> [] \<and>
   last [CallStart (env_ok True), CallStop] = CallStop \<and>
   (\<exists>w'. run [CallStart (env_ok True), CallStop]
            (fst (newAppSec cfg1 w_init)) (snd (newAppSec cfg1 w_init)) = Inr w' \<and>
      wafHandle (insts w' (fst (newAppSec cfg1 w_init))) = None)"
proof -
  let ?a = "fst (newAppSec cfg1 w_init)" and ?w = "snd (newAppSec cfg1 w_init)"
  let ?c3 = "[CallStart (env_ok True), CallStop, CallStart (env_ok True)]"
  let ?c2 = "[CallStart (env_ok True), CallStop]"
  from start_stop_handle_invariant[of ?c3 cfg1 w_init]
  obtain w3 where w3: "run ?c3 ?a ?w = Inr w3"
    "started (insts w3 ?a) \<longrightarrow> wafHandle (insts w3 ?a) \<noteq> None"
    by blast
  have "started (insts w3 ?a)"
    using run_start_started w3(1) by simp
  with w3 have A: "\<exists>w'. run ?c3 ?a ?w = Inr w' \<and> started (insts w' ?a) \<and>
      wafHandle (insts w' ?a) \<noteq> None"
    by blast
  have l: "?c2 \<noteq> []" "last ?c2 = CallStop"
    by simp_all
  from start_stop_handle_invariant[of ?c2 cfg1 w_init] l
  have B: "\<exists>w'. run ?c2 ?a ?w = Inr w' \<and> wafHandle (insts w' ?a) = None"
    by blast
  show ?thesis using A B l by blast
qed

lemma start_bad_rules:
  "start env_bad_rules 0 (snd (newAppSec cfg1 w_init)) =
     (Some (Err ''invalid rules''),
      w_leak\<lparr>next_addr := 2, rcClients := {},
        trace := [NewTicker 1 100 100, SetLimiter 0 1, LimiterStart 1]\<rparr>)"
  by (simp add: start_def swapWAF_def newAppSec_def prim_defs env_bad_rules_def env_defs
        w_init_def w_leak_def Let_def eval_nat_numeral fun_eq_iff)

lemma Start_bad_rules: "Start env_bad_rules [] w_init = Inr w_leak"
  by (simp add: Start_def start_def swapWAF_def startRC_def newAppSec_def prim_defs
        env_bad_rules_def env_defs w_init_def w_leak_def Let_def eval_nat_numeral fun_eq_iff
        insert_Diff_if)

text \<open>
  Claim C8 says that whenever a call sequence ends with the manager not started, also
  after a \<^verbatim>\<open>start()\<close> that failed after creating the limiter, followed by
  \<^verbatim>\<open>stop()\<close>, the limiter's ticking is not running. The code does otherwise. With
  rules from which no engine handle can be built, \<^verbatim>\<open>start()\<close> creates and starts
  limiter 1 and returns the error of \<^verbatim>\<open>swapWAF\<close> with \<^verbatim>\<open>started\<close> still false;
  \<^verbatim>\<open>stop()\<close> then returns at its first line, so \<^verbatim>\<open>a.limiter.Stop()\<close> is not
  reached and the limiter keeps ticking. The same holds for the package-level
  \<^verbatim>\<open>Start\<close> followed by \<^verbatim>\<open>Stop\<close>: the failed instance is dropped with its limiter
  running.
\<close>

theorem limiter_left_ticking_after_failed_start:
  "fst (start env_bad_rules 0 (snd (newAppSec cfg1 w_init))) = Some (Err ''invalid rules'') \<and>
   run [CallStart env_bad_rules, CallStop] 0 (snd (newAppSec cfg1 w_init)) =
     Inr (w_leak\<lparr>next_addr := 2, rcClients := {},
            trace := [NewTicker 1 100 100, SetLimiter 0 1, LimiterStart 1]\<rparr>) \<and>
   Start env_bad_rules [] w_init = Inr w_leak \<and>
   Stop w_leak = Inr (w_leak\<lparr>trace := trace w_leak @ [SetActive None]\<rparr>) \<and>
   \<not> started (insts w_leak 0) \<and> limiter (insts w_leak 0) = Some 1 \<and> 1 \<in> ticking w_leak \<and>
   activeAppSec w_leak = None"
  by (simp add: start_bad_rules Start_bad_rules)
     (simp add: stop_def Stop_def setActiveAppSec_def set_active_def emit_def w_leak_def)

end
